theory Spec2Isabelle
  imports Complex_Main "HOL-Library.Sublist"
begin

section \<open>Data model of \<open>adversarial_generator.py\<close>\<close>

text \<open>
  The module works on numpy arrays of pixel intensities. An array is modelled by its
  nesting of axes with a number at every leaf; numbers are real (the arithmetic of the
  module is addition of a constant and clipping, read here without rounding and without
  NaN). An image is an array of three axes, a batch an array of four.
\<close>

datatype ndarray = Scalar real | Arr "ndarray list"

text \<open>The exceptions that the functions of the module can raise.\<close>

datatype py_error = ValueError | KeyError | IndexError

text \<open>
  \<open>model.predict\<close> is the only capability of the classifier that the module uses: from a
  batch to one probability vector per example. \<open>K.categorical_crossentropy\<close> followed by
  \<open>K.eval\<close> is the backend's loss; the comparison in \<open>compute_gradient_sign\<close> reads it as
  one number, which is what it is for the single-example batches that the sampler
  builds. Both belong to Keras, so both are parameters of the model.
\<close>

type_synonym model = "ndarray \<Rightarrow> real list list"
type_synonym 'y crossentropy = "'y \<Rightarrow> real list list \<Rightarrow> real"

text \<open>
  The labeled example set is a dict from \<open>str(label)\<close> to the list of images of that
  label. It is kept as its list of items; \<open>len\<close> counts the keys, a lookup takes the
  entry of the key.
\<close>

type_synonym examples = "(string \<times> ndarray list) list"

definition dict_len :: "(string \<times> 'v) list \<Rightarrow> nat" where
  "dict_len d = length (remdups (map fst d))"

definition dict_get :: "(string \<times> 'v) list \<Rightarrow> string \<Rightarrow> py_error + 'v" where
  "dict_get d k = (case map_of d k of None \<Rightarrow> Inl KeyError | Some v \<Rightarrow> Inr v)"

subsection \<open>Python and numpy primitives\<close>

text \<open>\<open>str\<close> of an integer: its decimal digits, with a minus sign when negative.\<close>

fun str_nat :: "nat \<Rightarrow> string" where
  "str_nat n = (if n < 10 then [''0123456789'' ! n]
                else str_nat (n div 10) @ [''0123456789'' ! (n mod 10)])"

definition str_int :: "int \<Rightarrow> string" where
  "str_int i = (if i < 0 then CHR ''-'' # str_nat (nat (- i)) else str_nat (nat i))"

text \<open>
  \<open>random.randint(a, b)\<close> returns an integer of the closed interval from \<open>a\<close> to \<open>b\<close> and
  raises \<open>ValueError\<close> when the interval is empty. The generator's choice is the
  natural number \<open>r\<close>: every member of the interval is the result for some \<open>r\<close>.
\<close>

definition randint :: "int \<Rightarrow> int \<Rightarrow> nat \<Rightarrow> py_error + int" where
  "randint a b r = (if b < a then Inl ValueError else Inr (a + int r mod (b - a + 1)))"

text \<open>
  A slice \<open>xs[lo:hi]\<close>: a negative bound counts from the end, both bounds are clamped to
  the list, and the slice is empty when the start is not before the stop. A slice never
  raises.
\<close>

definition slice_bound :: "nat \<Rightarrow> int \<Rightarrow> nat" where
  "slice_bound n i = (if i < 0 then nat (max 0 (int n + i)) else min n (nat i))"

definition py_slice :: "'a list \<Rightarrow> int \<Rightarrow> int \<Rightarrow> 'a list" where
  "py_slice xs lo hi =
     (let l = slice_bound (length xs) lo; h = slice_bound (length xs) hi
      in take (h - l) (drop l xs))"

text \<open>
  An item \<open>xs[i]\<close>: position \<open>i\<close> from the start, or from the end for a negative \<open>i\<close>;
  \<open>IndexError\<close> when the list has no such position.
\<close>

definition py_index :: "'a list \<Rightarrow> int \<Rightarrow> py_error + 'a" where
  "py_index xs i =
     (if 0 \<le> i \<and> i < int (length xs) then Inr (xs ! nat i)
      else if i < 0 \<and> - int (length xs) \<le> i then Inr (xs ! nat (int (length xs) + i))
      else Inl IndexError)"

text \<open>A ufunc applies a function to every number of an array.\<close>

fun np_map :: "(real \<Rightarrow> real) \<Rightarrow> ndarray \<Rightarrow> ndarray" where
  "np_map f (Scalar v) = Scalar (f v)"
| "np_map f (Arr xs) = Arr (map (np_map f) xs)"

definition np_add :: "ndarray \<Rightarrow> real \<Rightarrow> ndarray" where
  "np_add x c = np_map (\<lambda>v. v + c) x"

definition np_clip :: "ndarray \<Rightarrow> real \<Rightarrow> real \<Rightarrow> ndarray" where
  "np_clip x lo hi = np_map (\<lambda>v. min (max v lo) hi) x"

text \<open>\<open>np.array([x])\<close>: a copy of \<open>x\<close> under a new leading axis of size one.\<close>

definition np_array1 :: "ndarray \<Rightarrow> ndarray" where
  "np_array1 x = Arr [x]"

text \<open>
  \<open>np.argmin\<close> of a vector: the index of the first occurrence of its minimum;
  \<open>ValueError\<close> on an empty vector.
\<close>

fun argmin_list :: "real list \<Rightarrow> nat" where
  "argmin_list [] = 0"
| "argmin_list [x] = 0"
| "argmin_list (x # y # ys) =
     (let k = argmin_list (y # ys) in if x \<le> (y # ys) ! k then 0 else Suc k)"

definition np_argmin :: "real list \<Rightarrow> py_error + int" where
  "np_argmin xs = (if xs = [] then Inl ValueError else Inr (int (argmin_list xs)))"

section \<open>The functions of the module\<close>

subsection \<open>\<open>get_pure_examples\<close>\<close>

text \<open>
  The first statement: \<open>low_limit = random.randint(0, len(examples) - num_examples - 1)\<close>,
  where \<open>examples\<close> is the dict.
\<close>

definition draw_low_limit :: "(string \<times> 'v) list \<Rightarrow> int \<Rightarrow> nat \<Rightarrow> py_error + int" where
  "draw_low_limit examples num_examples r =
     randint 0 (int (dict_len examples) - num_examples - 1) r"

text \<open>
  Then the slice of the class's list, and \<open>np.array([...])\<close> on each of its items.
  (\<open>cls\<close> is the parameter \<open>class_\<close>.)
\<close>

definition get_pure_examples :: "examples \<Rightarrow> int \<Rightarrow> int \<Rightarrow> nat \<Rightarrow> py_error + ndarray list" where
  "get_pure_examples examples num_examples cls r =
     (case draw_low_limit examples num_examples r of
        Inl e \<Rightarrow> Inl e
      | Inr low_limit \<Rightarrow>
          (case dict_get examples (str_int cls) of
             Inl e \<Rightarrow> Inl e
           | Inr xs \<Rightarrow>
               Inr (map np_array1 (py_slice xs low_limit (low_limit + num_examples)))))"

subsection \<open>\<open>compute_gradient_sign\<close>\<close>

definition default_delta :: real where
  "default_delta = 1 / 100000"

definition compute_gradient_sign :: "'y crossentropy \<Rightarrow> model \<Rightarrow> ndarray \<Rightarrow> 'y \<Rightarrow> real \<Rightarrow> int" where
  "compute_gradient_sign K model x y_true delta =
     (let x_delta = np_add x delta;
          y_pred = model x;
          y_pred_delta = model x_delta;
          loss = K y_true y_pred;
          loss_delta = K y_true y_pred_delta
      in if loss_delta > loss then 1 else - 1)"

subsection \<open>\<open>least_likely_class\<close>\<close>

definition least_likely_class :: "model \<Rightarrow> examples \<Rightarrow> int \<Rightarrow> nat \<Rightarrow> py_error + int" where
  "least_likely_class model examples cls r =
     (case get_pure_examples examples 1 cls r of
        Inl e \<Rightarrow> Inl e
      | Inr example \<Rightarrow>
          (case py_index example 0 of
             Inl e \<Rightarrow> Inl e
           | Inr example0 \<Rightarrow>
               (case py_index (model example0) 0 of
                  Inl e \<Rightarrow> Inl e
                | Inr preds0 \<Rightarrow> np_argmin preds0)))"

subsection \<open>\<open>fast_gradient_sign\<close>\<close>

definition fast_gradient_sign :: "'y crossentropy \<Rightarrow> model \<Rightarrow> ndarray \<Rightarrow> 'y \<Rightarrow> real \<Rightarrow> ndarray" where
  "fast_gradient_sign K model example cls epsilon =
     (let gradient_sign = compute_gradient_sign K model example cls default_delta;
          epsilon = epsilon * real_of_int gradient_sign;
          adv_example = np_add example epsilon;
          adv_example = np_clip adv_example 0 1
      in adv_example)"

subsection \<open>\<open>basic_iterative\<close>\<close>

text \<open>
  The loop carries the two variables that its body assigns, \<open>alpha\<close> and \<open>adv_example\<close>;
  \<open>range(0, num_iterations)\<close> runs \<open>nat num_iterations\<close> times (not at all for a count
  below one).
\<close>

fun basic_iterative_loop ::
  "'y crossentropy \<Rightarrow> model \<Rightarrow> 'y \<Rightarrow> nat \<Rightarrow> real \<times> ndarray \<Rightarrow> real \<times> ndarray" where
  "basic_iterative_loop K model cls 0 s = s"
| "basic_iterative_loop K model cls (Suc n) (alpha, adv_example) =
     (let gradient_sign = compute_gradient_sign K model adv_example cls default_delta;
          alpha = alpha * real_of_int gradient_sign;
          adv_example = np_add adv_example alpha;
          adv_example = np_clip adv_example 0 1
      in basic_iterative_loop K model cls n (alpha, adv_example))"

definition basic_iterative ::
  "'y crossentropy \<Rightarrow> model \<Rightarrow> ndarray \<Rightarrow> 'y \<Rightarrow> real \<Rightarrow> real \<Rightarrow> int \<Rightarrow> ndarray" where
  "basic_iterative K model example cls alpha epsilon num_iterations =
     snd (basic_iterative_loop K model cls (nat num_iterations) (alpha, example))"

subsection \<open>\<open>iterative_least_likely_class\<close>\<close>

fun illc_loop ::
  "int crossentropy \<Rightarrow> model \<Rightarrow> int \<Rightarrow> nat \<Rightarrow> real \<times> ndarray \<Rightarrow> real \<times> ndarray" where
  "illc_loop K model ll_class 0 s = s"
| "illc_loop K model ll_class (Suc n) (alpha, adv_example) =
     (let gradient_sign = compute_gradient_sign K model adv_example ll_class default_delta;
          alpha = alpha * real_of_int gradient_sign;
          adv_example = np_add adv_example alpha;
          adv_example = np_clip adv_example 0 1
      in illc_loop K model ll_class n (alpha, adv_example))"

text \<open>The two calls of the sampler draw \<open>r1\<close> and \<open>r2\<close>.\<close>

definition iterative_least_likely_class ::
  "int crossentropy \<Rightarrow> model \<Rightarrow> examples \<Rightarrow> int \<Rightarrow> real \<Rightarrow> real \<Rightarrow> int \<Rightarrow> nat \<Rightarrow> nat
     \<Rightarrow> py_error + ndarray" where
  "iterative_least_likely_class K model examples target_class alpha epsilon num_iterations r1 r2 =
     (case least_likely_class model examples target_class r1 of
        Inl e \<Rightarrow> Inl e
      | Inr ll_class \<Rightarrow>
          (case get_pure_examples examples 1 ll_class r2 of
             Inl e \<Rightarrow> Inl e
           | Inr ll_class_example \<Rightarrow>
               (case py_index ll_class_example 0 of
                  Inl e \<Rightarrow> Inl e
                | Inr adv_example \<Rightarrow>
                    Inr (snd (illc_loop K model ll_class (nat num_iterations)
                                (alpha, adv_example))))))"

section \<open>The module on a store of objects\<close>

text \<open>
  The example set shares its images with whoever holds a reference to them, and the
  sampler assigns to the items of a list. To follow which object an assignment reaches,
  the functions are given a second time over a store: the numpy arrays and the Python
  lists that exist, each at the address that is its position. A new object is put at
  the end; an item assignment changes the list object it is applied to, in place.
\<close>

record store =
  arrays :: "ndarray list"
  pylists :: "nat list list"

definition new_array :: "ndarray \<Rightarrow> store \<Rightarrow> nat \<times> store" where
  "new_array v s = (length (arrays s), s\<lparr>arrays := arrays s @ [v]\<rparr>)"

definition new_pylist :: "nat list \<Rightarrow> store \<Rightarrow> nat \<times> store" where
  "new_pylist xs s = (length (pylists s), s\<lparr>pylists := pylists s @ [xs]\<rparr>)"

text \<open>\<open>l[i] = a\<close> on the list object at address \<open>l\<close>.\<close>

definition set_item :: "nat \<Rightarrow> nat \<Rightarrow> nat \<Rightarrow> store \<Rightarrow> store" where
  "set_item l i a s = s\<lparr>pylists := (pylists s)[l := (pylists s ! l)[i := a]]\<rparr>"

text \<open>
  Here the dict holds, for every key, the address of the list object of that class;
  \<open>examples_of\<close> reads the example set that a store holds.
\<close>

type_synonym examples_st = "(string \<times> nat) list"

definition examples_of :: "examples_st \<Rightarrow> store \<Rightarrow> examples" where
  "examples_of d s = map (\<lambda>(k, l). (k, map (\<lambda>a. arrays s ! a) (pylists s ! l))) d"

text \<open>
  The loop of the sampler, \<open>pure_examples[i] = np.array([pure_examples[i]])\<close> for \<open>i\<close>
  from the current index on, \<open>n\<close> more times; \<open>p\<close> is the address of \<open>pure_examples\<close>.
\<close>

fun wrap_loop :: "nat \<Rightarrow> nat \<Rightarrow> nat \<Rightarrow> store \<Rightarrow> store" where
  "wrap_loop p i 0 s = s"
| "wrap_loop p i (Suc n) s =
     (let (a, s) = new_array (np_array1 (arrays s ! (pylists s ! p ! i))) s
      in wrap_loop p (Suc i) n (set_item p i a s))"

text \<open>The slice is a new list object with the items of the slice of the class's list.\<close>

definition get_pure_examples_st ::
  "examples_st \<Rightarrow> int \<Rightarrow> int \<Rightarrow> nat \<Rightarrow> store \<Rightarrow> (py_error + nat) \<times> store" where
  "get_pure_examples_st examples num_examples cls r s =
     (case draw_low_limit examples num_examples r of
        Inl e \<Rightarrow> (Inl e, s)
      | Inr low_limit \<Rightarrow>
          (case dict_get examples (str_int cls) of
             Inl e \<Rightarrow> (Inl e, s)
           | Inr l \<Rightarrow>
               (let (pure_examples, s) =
                      new_pylist (py_slice (pylists s ! l) low_limit (low_limit + num_examples)) s;
                    s = wrap_loop pure_examples 0 (length (pylists s ! pure_examples)) s
                in (Inr pure_examples, s))))"

definition compute_gradient_sign_st ::
  "'y crossentropy \<Rightarrow> model \<Rightarrow> nat \<Rightarrow> 'y \<Rightarrow> real \<Rightarrow> store \<Rightarrow> int \<times> store" where
  "compute_gradient_sign_st K model x y_true delta s =
     (let (x_delta, s) = new_array (np_add (arrays s ! x) delta) s;
          y_pred = model (arrays s ! x);
          y_pred_delta = model (arrays s ! x_delta);
          loss = K y_true y_pred;
          loss_delta = K y_true y_pred_delta
      in (if loss_delta > loss then 1 else - 1, s))"

definition least_likely_class_st ::
  "model \<Rightarrow> examples_st \<Rightarrow> int \<Rightarrow> nat \<Rightarrow> store \<Rightarrow> (py_error + int) \<times> store" where
  "least_likely_class_st model examples cls r s =
     (case get_pure_examples_st examples 1 cls r s of
        (Inl e, s) \<Rightarrow> (Inl e, s)
      | (Inr example, s) \<Rightarrow>
          (case py_index (pylists s ! example) 0 of
             Inl e \<Rightarrow> (Inl e, s)
           | Inr example0 \<Rightarrow>
               (case py_index (model (arrays s ! example0)) 0 of
                  Inl e \<Rightarrow> (Inl e, s)
                | Inr preds0 \<Rightarrow> (np_argmin preds0, s))))"

definition fast_gradient_sign_st ::
  "'y crossentropy \<Rightarrow> model \<Rightarrow> nat \<Rightarrow> 'y \<Rightarrow> real \<Rightarrow> store \<Rightarrow> nat \<times> store" where
  "fast_gradient_sign_st K model example cls epsilon s =
     (let (gradient_sign, s) = compute_gradient_sign_st K model example cls default_delta s;
          epsilon = epsilon * real_of_int gradient_sign;
          (adv_example, s) = new_array (np_add (arrays s ! example) epsilon) s;
          (adv_example, s) = new_array (np_clip (arrays s ! adv_example) 0 1) s
      in (adv_example, s))"

fun basic_iterative_loop_st ::
  "'y crossentropy \<Rightarrow> model \<Rightarrow> 'y \<Rightarrow> nat \<Rightarrow> real \<times> nat \<times> store \<Rightarrow> real \<times> nat \<times> store" where
  "basic_iterative_loop_st K model cls 0 st = st"
| "basic_iterative_loop_st K model cls (Suc n) (alpha, adv_example, s) =
     (let (gradient_sign, s) = compute_gradient_sign_st K model adv_example cls default_delta s;
          alpha = alpha * real_of_int gradient_sign;
          (adv_example, s) = new_array (np_add (arrays s ! adv_example) alpha) s;
          (adv_example, s) = new_array (np_clip (arrays s ! adv_example) 0 1) s
      in basic_iterative_loop_st K model cls n (alpha, adv_example, s))"

definition basic_iterative_st ::
  "'y crossentropy \<Rightarrow> model \<Rightarrow> nat \<Rightarrow> 'y \<Rightarrow> real \<Rightarrow> real \<Rightarrow> int \<Rightarrow> store \<Rightarrow> nat \<times> store" where
  "basic_iterative_st K model example cls alpha epsilon num_iterations s =
     snd (basic_iterative_loop_st K model cls (nat num_iterations) (alpha, example, s))"

fun illc_loop_st ::
  "int crossentropy \<Rightarrow> model \<Rightarrow> int \<Rightarrow> nat \<Rightarrow> real \<times> nat \<times> store \<Rightarrow> real \<times> nat \<times> store" where
  "illc_loop_st K model ll_class 0 st = st"
| "illc_loop_st K model ll_class (Suc n) (alpha, adv_example, s) =
     (let (gradient_sign, s) =
            compute_gradient_sign_st K model adv_example ll_class default_delta s;
          alpha = alpha * real_of_int gradient_sign;
          (adv_example, s) = new_array (np_add (arrays s ! adv_example) alpha) s;
          (adv_example, s) = new_array (np_clip (arrays s ! adv_example) 0 1) s
      in illc_loop_st K model ll_class n (alpha, adv_example, s))"

definition iterative_least_likely_class_st ::
  "int crossentropy \<Rightarrow> model \<Rightarrow> examples_st \<Rightarrow> int \<Rightarrow> real \<Rightarrow> real \<Rightarrow> int \<Rightarrow> nat \<Rightarrow> nat
     \<Rightarrow> store \<Rightarrow> (py_error + nat) \<times> store" where
  "iterative_least_likely_class_st K model examples target_class alpha epsilon num_iterations
       r1 r2 s =
     (case least_likely_class_st model examples target_class r1 s of
        (Inl e, s) \<Rightarrow> (Inl e, s)
      | (Inr ll_class, s) \<Rightarrow>
          (case get_pure_examples_st examples 1 ll_class r2 s of
             (Inl e, s) \<Rightarrow> (Inl e, s)
           | (Inr ll_class_example, s) \<Rightarrow>
               (case py_index (pylists s ! ll_class_example) 0 of
                  Inl e \<Rightarrow> (Inl e, s)
                | Inr adv_example \<Rightarrow>
                    (case illc_loop_st K model ll_class (nat num_iterations)
                            (alpha, adv_example, s) of
                       (alpha, adv_example, s) \<Rightarrow> (Inr adv_example, s)))))"

section \<open>A stub classifier and small example sets\<close>

text \<open>
  The worked examples run the module on a classifier with two classes that reads the
  first pixel \<open>v\<close> of its input and predicts \<open>[v, 1 - v]\<close>, with a loss that falls as the
  probability of the true class rises; images have one pixel with one channel.
\<close>

fun first_pixel :: "ndarray \<Rightarrow> real" where
  "first_pixel (Scalar v) = v"
| "first_pixel (Arr []) = 0"
| "first_pixel (Arr (x # xs)) = first_pixel x"

definition stub_model :: model where
  "stub_model x = [[first_pixel x, 1 - first_pixel x]]"

definition stub_loss :: "int crossentropy" where
  "stub_loss y_true y_pred = 1 - hd y_pred ! nat y_true"

definition pixel_image :: "real \<Rightarrow> ndarray" where
  "pixel_image v = Arr [Arr [Arr [Scalar v]]]"

definition two_classes :: examples where
  "two_classes =
     [(''0'', [pixel_image (1 / 5), pixel_image (2 / 5)]),
      (''1'', [pixel_image (3 / 5), pixel_image (4 / 5)])]"

definition one_class :: examples where
  "one_class = [(''0'', [pixel_image (1 / 2)])]"

definition three_classes :: examples where
  "three_classes =
     [(''0'', [pixel_image 0, pixel_image (1 / 2), pixel_image 1]),
      (''1'', [pixel_image (1 / 4)]),
      (''2'', [pixel_image (3 / 4)])]"

definition four_classes :: examples where
  "four_classes =
     [(''0'', [pixel_image (1 / 5), pixel_image (2 / 5)]),
      (''1'', [pixel_image (3 / 5), pixel_image (4 / 5)]),
      (''2'', [pixel_image 0, pixel_image 1]),
      (''3'', [pixel_image (1 / 2), pixel_image (1 / 4)])]"

text \<open>A store with the three images of one class, and the dict of three classes on it.\<close>

definition small_store :: store where
  "small_store =
     \<lparr>arrays = [pixel_image 0, pixel_image (1 / 2), pixel_image 1],
      pylists = [[0, 1, 2], [], []]\<rparr>"

definition small_dict :: examples_st where
  "small_dict = [(''0'', 0), (''1'', 1), (''2'', 2)]"

section \<open>Predicates of the properties\<close>

text \<open>Every number of an array lies between \<open>lo\<close> and \<open>hi\<close>.\<close>

fun pixels_in :: "real \<Rightarrow> real \<Rightarrow> ndarray \<Rightarrow> bool" where
  "pixels_in lo hi (Scalar v) = (lo \<le> v \<and> v \<le> hi)"
| "pixels_in lo hi (Arr xs) = list_all (pixels_in lo hi) xs"

text \<open>Every image of the example set has its numbers between \<open>lo\<close> and \<open>hi\<close>.\<close>

definition examples_in :: "real \<Rightarrow> real \<Rightarrow> examples \<Rightarrow> bool" where
  "examples_in lo hi d = list_all (\<lambda>(k, xs). list_all (pixels_in lo hi) xs) d"

text \<open>
  Every object of the store \<open>s\<close> is in \<open>s'\<close> at its address, with the content it had.
\<close>

definition unchanged :: "store \<Rightarrow> store \<Rightarrow> bool" where
  "unchanged s s' \<longleftrightarrow> prefix (arrays s) (arrays s') \<and> prefix (pylists s) (pylists s')"

text \<open>
  The references of the example set are live: every class has its list object in the
  store, and every item of such a list is the address of an array of the store.
\<close>

definition wf_store :: "examples_st \<Rightarrow> store \<Rightarrow> bool" where
  "wf_store d s \<longleftrightarrow>
     list_all (\<lambda>(k, l). l < length (pylists s)
                 \<and> list_all (\<lambda>a. a < length (arrays s)) (pylists s ! l)) d"

section \<open>Python and numpy primitives: facts\<close>

lemma argmin_list_less: "xs \<noteq> [] \<Longrightarrow> argmin_list xs < length xs"
  by (induction xs rule: argmin_list.induct) (auto simp: Let_def)

lemma argmin_list_le: "j < length xs \<Longrightarrow> xs ! argmin_list xs \<le> xs ! j"
proof (induction xs arbitrary: j rule: argmin_list.induct)
  case 1
  then show ?case by simp
next
  case (2 x)
  then show ?case by simp
next
  case (3 x y ys)
  show ?case
  proof (cases j)
    case 0
    then show ?thesis by (auto simp: Let_def)
  next
    case (Suc i)
    with "3.prems" have "i < length (y # ys)" by simp
    from "3.IH"[OF this] Suc show ?thesis by (auto simp: Let_def)
  qed
qed

lemma argmin_list_first: "j < argmin_list xs \<Longrightarrow> xs ! argmin_list xs < xs ! j"
proof (induction xs arbitrary: j rule: argmin_list.induct)
  case 1
  then show ?case by simp
next
  case (2 x)
  then show ?case by simp
next
  case (3 x y ys)
  from "3.prems" have big: "\<not> x \<le> (y # ys) ! argmin_list (y # ys)"
    and k: "argmin_list (x # y # ys) = Suc (argmin_list (y # ys))"
    by (auto simp: Let_def split: if_splits)
  show ?case
  proof (cases j)
    case 0
    with big k show ?thesis by simp
  next
    case (Suc i)
    with "3.prems" k have "i < argmin_list (y # ys)" by simp
    from "3.IH"[OF this] Suc k show ?thesis by simp
  qed
qed

lemma argmin_list_Min: "xs \<noteq> [] \<Longrightarrow> xs ! argmin_list xs = Min (set xs)"
proof (rule sym, rule Min_eqI)
  show "finite (set xs)" by simp
  show "y \<ge> xs ! argmin_list xs" if "y \<in> set xs" for y
    using that argmin_list_le by (auto simp: in_set_conv_nth)
  show "xs ! argmin_list xs \<in> set xs" if "xs \<noteq> []"
    using that by (simp add: argmin_list_less)
qed

lemma argmin_list_unique:
  assumes "k < length xs" "xs ! k = Min (set xs)" "\<forall>j<k. xs ! k < xs ! j"
  shows "k = argmin_list xs"
proof -
  from assms(1) have ne: "xs \<noteq> []" by auto
  let ?m = "argmin_list xs"
  have eq: "xs ! ?m = xs ! k"
    using argmin_list_Min[OF ne] assms(2) by simp
  have "\<not> ?m < k" using assms(3) eq by force
  moreover have "\<not> k < ?m" using argmin_list_first[of k xs] eq by force
  ultimately show ?thesis by simp
qed

lemma randint_range:
  assumes "randint a b r = Inr v"
  shows "a \<le> v \<and> v \<le> b"
proof -
  from assms have ab: "a \<le> b" and v: "v = a + int r mod (b - a + 1)"
    by (auto simp: randint_def split: if_splits)
  from ab have pos: "0 < b - a + 1" by simp
  have "0 \<le> int r mod (b - a + 1)" "int r mod (b - a + 1) < b - a + 1"
    using pos by (rule pos_mod_sign, rule pos_mod_bound)
  with v show ?thesis by linarith
qed

lemma randint_onto: "a \<le> v \<Longrightarrow> v \<le> b \<Longrightarrow> randint a b (nat (v - a)) = Inr v"
  by (simp add: randint_def)

lemma length_py_slice_le: "0 \<le> lo \<Longrightarrow> 0 \<le> n \<Longrightarrow> length (py_slice xs lo (lo + n)) \<le> nat n"
  by (auto simp: py_slice_def slice_bound_def Let_def)

lemma py_slice_take_drop:
  "0 \<le> lo \<Longrightarrow> 0 \<le> n \<Longrightarrow> py_slice xs lo (lo + n) = take (nat n) (drop (nat lo) xs)"
  by (auto simp: py_slice_def slice_bound_def Let_def min_def nat_add_distrib)

lemma set_py_slice: "set (py_slice xs lo hi) \<subseteq> set xs"
  unfolding py_slice_def Let_def
  by (meson set_take_subset set_drop_subset subset_trans)

lemma dict_get_in: "dict_get d k = Inr v \<Longrightarrow> (k, v) \<in> set d"
  by (auto simp: dict_get_def split: option.splits dest: map_of_SomeD)

lemma py_index_in: "py_index xs i = Inr x \<Longrightarrow> x \<in> set xs"
  by (auto simp: py_index_def Let_def split: if_splits)

section \<open>The example sampler\<close>

lemma draw_low_limit_nonneg: "draw_low_limit examples n r = Inr low \<Longrightarrow> 0 \<le> low"
  unfolding draw_low_limit_def by (drule randint_range) simp

lemma get_pure_examples_Inr:
  assumes "get_pure_examples examples n cls r = Inr res"
  obtains low xs where "draw_low_limit examples n r = Inr low" "0 \<le> low"
    "dict_get examples (str_int cls) = Inr xs"
    "res = map np_array1 (py_slice xs low (low + n))"
proof -
  from assms obtain low xs where low: "draw_low_limit examples n r = Inr low"
    and rest: "dict_get examples (str_int cls) = Inr xs"
      "res = map np_array1 (py_slice xs low (low + n))"
    by (auto simp: get_pure_examples_def split: sum.splits)
  from low have "0 \<le> low" by (rule draw_low_limit_nonneg)
  from that[OF low this rest] show ?thesis .
qed

text \<open>Asked for one example, the sampler returns one image of the class or none.\<close>

lemma get_pure_examples_one:
  assumes "get_pure_examples examples 1 cls r = Inr sample"
  shows "sample = [] \<or>
    (\<exists>xs img. dict_get examples (str_int cls) = Inr xs \<and> img \<in> set xs \<and>
       sample = [np_array1 img])"
proof -
  from assms obtain low xs where low: "0 \<le> low"
    and xs: "dict_get examples (str_int cls) = Inr xs"
    and sl: "sample = map np_array1 (py_slice xs low (low + 1))"
    by (rule get_pure_examples_Inr)
  have le: "length (py_slice xs low (low + 1)) \<le> 1"
    using length_py_slice_le[OF low, of 1 xs] by simp
  show ?thesis
  proof (cases "py_slice xs low (low + 1)")
    case Nil
    then show ?thesis by (simp add: sl)
  next
    case (Cons img rest)
    with le have rest: "rest = []" by simp
    have "img \<in> set xs"
      using set_py_slice[of xs low "low + 1"] Cons by auto
    with xs Cons rest show ?thesis by (auto simp: sl)
  qed
qed

text \<open>It returns the image at the offset when the class's list reaches that far.\<close>

lemma get_pure_examples_one_returns:
  assumes "draw_low_limit examples 1 r = Inr low"
    and "dict_get examples (str_int cls) = Inr xs" and "nat low < length xs"
  shows "get_pure_examples examples 1 cls r = Inr [np_array1 (xs ! nat low)]"
proof -
  from assms(1) have low: "0 \<le> low" by (rule draw_low_limit_nonneg)
  have "py_slice xs low (low + 1) = take 1 (drop (nat low) xs)"
    using py_slice_take_drop[OF low, of 1 xs] by simp
  also have "\<dots> = [xs ! nat low]"
    using assms(3) by (simp add: take_Suc_conv_app_nth Cons_nth_drop_Suc[symmetric])
  finally show ?thesis
    using assms(1,2) by (simp add: get_pure_examples_def)
qed

text \<open>The equations that evaluate a run of the sampler, and one on the stub classifier.\<close>

lemmas sampler_eval =
  get_pure_examples_def draw_low_limit_def randint_def dict_len_def dict_get_def str_int_def
  py_slice_def slice_bound_def np_array1_def

lemmas stub_eval =
  stub_model_def stub_loss_def pixel_image_def np_add_def np_clip_def default_delta_def

text \<open>The offsets that the draw can give are those of a closed interval from 0.\<close>

lemma draw_low_limit_offsets:
  "{low. \<exists>r. draw_low_limit examples n r = Inr low} = {0 .. int (dict_len examples) - n - 1}"
proof (intro set_eqI iffI)
  fix low assume "low \<in> {low. \<exists>r. draw_low_limit examples n r = Inr low}"
  then show "low \<in> {0 .. int (dict_len examples) - n - 1}"
    by (auto simp: draw_low_limit_def dest: randint_range)
next
  fix low assume "low \<in> {0 .. int (dict_len examples) - n - 1}"
  then have "draw_low_limit examples n (nat (low - 0)) = Inr low"
    unfolding draw_low_limit_def by (intro randint_onto) auto
  then show "low \<in> {low. \<exists>r. draw_low_limit examples n r = Inr low}" by blast
qed

text \<open>The draw fails when the dict has no more than \<open>n\<close> keys, and only then.\<close>

lemma draw_low_limit_fails:
  "draw_low_limit examples n r = Inl e \<longleftrightarrow> e = ValueError \<and> int (dict_len examples) \<le> n"
  by (auto simp: draw_low_limit_def randint_def)

text \<open>
  C3, in the form that holds of the code. When the sampler returns, its offset was drawn
  from a closed interval of integers that starts at 0, the upper end being one of the
  possible offsets; the result is the slice of the class's list that starts at the
  offset and stops \<open>n\<close> items later or at the end of the list, each item under a new
  leading axis of size one.
\<close>

theorem sampler_slice:
  assumes "get_pure_examples examples n cls r = Inr res"
  shows "\<exists>hi low xs.
           {l. \<exists>r'. draw_low_limit examples n r' = Inr l} = {0 .. hi} \<and>
           draw_low_limit examples n r = Inr low \<and> low \<in> {0 .. hi} \<and>
           dict_get examples (str_int cls) = Inr xs \<and>
           res = map np_array1 (py_slice xs low (low + n)) \<and>
           (0 \<le> n \<longrightarrow> py_slice xs low (low + n) = take (nat n) (drop (nat low) xs))"
proof -
  from assms obtain low xs where low: "draw_low_limit examples n r = Inr low" "0 \<le> low"
    and xs: "dict_get examples (str_int cls) = Inr xs"
    and res: "res = map np_array1 (py_slice xs low (low + n))"
    by (rule get_pure_examples_Inr)
  let ?hi = "int (dict_len examples) - n - 1"
  have set: "{l. \<exists>r'. draw_low_limit examples n r' = Inr l} = {0 .. ?hi}"
    by (rule draw_low_limit_offsets)
  with low(1) have "low \<in> {0 .. ?hi}" by blast
  with set low xs res py_slice_take_drop[OF low(2), of n xs] show ?thesis by blast
qed

lemma sampler_run_three: "get_pure_examples three_classes 1 0 1 = Inr [Arr [pixel_image (1 / 2)]]"
  by (simp add: sampler_eval three_classes_def)

theorem sampler_slice_witness:
  "get_pure_examples three_classes 1 0 1 = Inr [Arr [pixel_image (1 / 2)]]
   \<and> (\<exists>hi low xs.
         {l. \<exists>r'. draw_low_limit three_classes 1 r' = Inr l} = {0 .. hi} \<and>
         draw_low_limit three_classes 1 1 = Inr low \<and> low \<in> {0 .. hi} \<and>
         dict_get three_classes (str_int 0) = Inr xs \<and>
         [Arr [pixel_image (1 / 2)]] = map np_array1 (py_slice xs low (low + 1)) \<and>
         ((0::int) \<le> 1 \<longrightarrow> py_slice xs low (low + 1) = take (nat 1) (drop (nat low) xs)))"
  using sampler_slice[OF sampler_run_three] sampler_run_three by simp

text \<open>
  C3 as stated has the offset below \<open>len - n - 1\<close>, \<open>len\<close> being the number of examples of
  the class. With three classes and three examples of class 0, one example is asked for:
  the draw gives offset 1, which is \<open>3 - 1 - 1\<close>, and the second example is returned, not
  the first.
\<close>

theorem sampler_offset_counterexample:
  "dict_get three_classes (str_int 0) = Inr [pixel_image 0, pixel_image (1 / 2), pixel_image 1]
   \<and> draw_low_limit three_classes 1 1 = Inr 1
   \<and> \<not> (1 < int (length [pixel_image 0, pixel_image (1 / 2), pixel_image 1]) - 1 - 1)
   \<and> get_pure_examples three_classes 1 0 1 = Inr [Arr [pixel_image (1 / 2)]]
   \<and> get_pure_examples three_classes 1 0 1 \<noteq> Inr [Arr [pixel_image 0]]"
  by (simp add: sampler_eval three_classes_def pixel_image_def)

text \<open>
  C4, in the form that holds of the code. The sampler never fails with \<open>IndexError\<close>.
  It fails with \<open>ValueError\<close> exactly when the draw does, and with \<open>KeyError\<close> exactly
  when the draw succeeds and the class is not a key of the example set; in every other
  case it returns.
\<close>

theorem sampler_failures:
  "get_pure_examples examples n cls r \<noteq> Inl IndexError
   \<and> (get_pure_examples examples n cls r = Inl ValueError
        \<longleftrightarrow> draw_low_limit examples n r = Inl ValueError)
   \<and> (get_pure_examples examples n cls r = Inl KeyError
        \<longleftrightarrow> draw_low_limit examples n r \<noteq> Inl ValueError
            \<and> str_int cls \<notin> fst ` set examples)"
proof -
  have key: "dict_get examples k = Inl e \<longleftrightarrow> e = KeyError \<and> k \<notin> fst ` set examples" for k e
    by (cases "map_of examples k") (auto simp: dict_get_def map_of_eq_None_iff[symmetric])
  show ?thesis
  proof (cases "draw_low_limit examples n r")
    case (Inl e)
    moreover from Inl have "e = ValueError" by (simp add: draw_low_limit_fails)
    ultimately show ?thesis by (simp add: get_pure_examples_def)
  next
    case low: (Inr low)
    show ?thesis
    proof (cases "dict_get examples (str_int cls)")
      case (Inl e)
      with key[of "str_int cls" e] low show ?thesis
        by (simp add: get_pure_examples_def)
    next
      case (Inr xs)
      with key[of "str_int cls" KeyError] low show ?thesis
        by (simp add: get_pure_examples_def)
    qed
  qed
qed

theorem sampler_failures_witness:
  "get_pure_examples two_classes 1 7 0 = Inl KeyError
   \<and> draw_low_limit two_classes 1 0 \<noteq> Inl ValueError
   \<and> str_int 7 \<notin> fst ` set two_classes
   \<and> get_pure_examples two_classes 2 0 0 = Inl ValueError
   \<and> draw_low_limit two_classes 2 0 = Inl ValueError"
  using sampler_failures[of two_classes 1 7 0] sampler_failures[of two_classes 2 0 0]
  by (simp add: draw_low_limit_def randint_def dict_len_def str_int_def two_classes_def)

text \<open>
  C4 as stated has an out-of-range indexing error when the class has fewer than \<open>n + 1\<close>
  examples. One example is asked of the only class, which has one: the failure is the
  \<open>ValueError\<close> of the draw.
\<close>

theorem sampler_error_counterexample:
  "dict_get one_class (str_int 0) = Inr [pixel_image (1 / 2)]
   \<and> int (length [pixel_image (1 / 2)]) < 1 + 1
   \<and> get_pure_examples one_class 1 0 0 = Inl ValueError
   \<and> get_pure_examples one_class 1 0 0 \<noteq> Inl IndexError"
  by (simp add: sampler_eval one_class_def)

text \<open>
  C9. A run in which the class has \<open>n + 1\<close> examples and the list returned is shorter
  than \<open>n\<close>: with four classes the draw for one example can give offset 2, past the two
  examples of class 0, and the slice is empty.
\<close>

theorem sampler_short_slice:
  "dict_get four_classes (str_int 0) = Inr [pixel_image (1 / 5), pixel_image (2 / 5)]
   \<and> 1 + 1 \<le> int (length [pixel_image (1 / 5), pixel_image (2 / 5)])
   \<and> draw_low_limit four_classes 1 2 = Inr 2
   \<and> get_pure_examples four_classes 1 0 2 = Inr []"
  by (simp add: sampler_eval four_classes_def)

section \<open>The gradient-sign estimator\<close>

text \<open>
  C5. The estimator returns \<open>1\<close> when the loss of the prediction on the batch shifted by
  the probe step is strictly greater than the loss on the batch itself, and \<open>-1\<close>
  otherwise, the case of equal losses included; it returns nothing else.
\<close>

theorem compute_gradient_sign_value:
  "compute_gradient_sign K model x y_true delta =
     (if K y_true (model (np_add x delta)) > K y_true (model x) then 1 else - 1)
   \<and> compute_gradient_sign K model x y_true delta \<in> {1, - 1}"
  by (simp add: compute_gradient_sign_def Let_def)

lemma compute_gradient_sign_stub:
  "compute_gradient_sign stub_loss stub_model (Arr [pixel_image v]) 1 default_delta = 1"
  "compute_gradient_sign stub_loss stub_model (Arr [pixel_image v]) 0 default_delta = - 1"
  by (simp_all add: compute_gradient_sign_def stub_eval)

theorem compute_gradient_sign_value_witness:
  "stub_loss 1 (stub_model (np_add (Arr [pixel_image (1 / 2)]) default_delta))
     > stub_loss 1 (stub_model (Arr [pixel_image (1 / 2)]))
   \<and> compute_gradient_sign stub_loss stub_model (Arr [pixel_image (1 / 2)]) 1 default_delta = 1
   \<and> stub_loss 0 (stub_model (np_add (Arr [pixel_image (1 / 2)]) default_delta))
     < stub_loss 0 (stub_model (Arr [pixel_image (1 / 2)]))
   \<and> compute_gradient_sign stub_loss stub_model (Arr [pixel_image (1 / 2)]) 0 default_delta = - 1
   \<and> compute_gradient_sign (\<lambda>y p. 0) stub_model (Arr [pixel_image (1 / 2)]) (0::int) default_delta
       = - 1"
  using compute_gradient_sign_value[of stub_loss stub_model "Arr [pixel_image (1 / 2)]" 1 default_delta]
    compute_gradient_sign_value[of stub_loss stub_model "Arr [pixel_image (1 / 2)]" 0 default_delta]
    compute_gradient_sign_value[of "\<lambda>y p. 0" stub_model "Arr [pixel_image (1 / 2)]" "0::int"
      default_delta]
  by (simp add: stub_eval)

section \<open>The least likely class\<close>

text \<open>The steps after the sampler, once it has returned an example.\<close>

lemma least_likely_class_returns:
  assumes "get_pure_examples examples 1 cls r = Inr (example0 # others)"
    and "model example0 = preds0 # rest" and "preds0 \<noteq> []"
  shows "least_likely_class model examples cls r = Inr (int (argmin_list preds0))"
  using assms by (simp add: least_likely_class_def py_index_def np_argmin_def)

lemma least_likely_class_Inr:
  assumes "least_likely_class model examples cls r = Inr ll_class"
  obtains example0 others preds0 rest where
    "get_pure_examples examples 1 cls r = Inr (example0 # others)"
    "model example0 = preds0 # rest" "preds0 \<noteq> []" "ll_class = int (argmin_list preds0)"
proof -
  from assms obtain sample example0 preds0 where
    sample: "get_pure_examples examples 1 cls r = Inr sample" and
    example0: "py_index sample 0 = Inr example0" and
    preds0: "py_index (model example0) 0 = Inr preds0" and
    ll: "np_argmin preds0 = Inr ll_class"
    by (auto simp: least_likely_class_def split: sum.splits)
  from example0 obtain others where "sample = example0 # others"
    by (cases sample) (auto simp: py_index_def)
  moreover from preds0 obtain rest where "model example0 = preds0 # rest"
    by (cases "model example0") (auto simp: py_index_def)
  moreover from ll have "preds0 \<noteq> []" "ll_class = int (argmin_list preds0)"
    by (auto simp: np_argmin_def split: if_splits)
  ultimately show ?thesis using sample that by blast
qed

text \<open>
  C6. \<open>least_likely_class\<close> returns \<open>ll_class\<close> exactly when the sampler has returned one
  example, an image of the given class under its batch axis, and \<open>ll_class\<close> is the index
  of the minimum of the first probability vector that the model predicts on it (the
  first such index when the minimum occurs more than once). It returns whenever the
  sampler has returned an example and the model a non-empty first vector for it, and
  only then.
\<close>

theorem least_likely_class_argmin:
  "(least_likely_class model examples cls r = Inr ll_class \<longleftrightarrow>
      (\<exists>xs img preds0 rest.
         dict_get examples (str_int cls) = Inr xs \<and> img \<in> set xs \<and>
         get_pure_examples examples 1 cls r = Inr [np_array1 img] \<and>
         model (np_array1 img) = preds0 # rest \<and>
         0 \<le> ll_class \<and> nat ll_class < length preds0 \<and>
         preds0 ! nat ll_class = Min (set preds0) \<and>
         (\<forall>j < nat ll_class. preds0 ! nat ll_class < preds0 ! j)))
   \<and> ((\<exists>k. least_likely_class model examples cls r = Inr k) \<longleftrightarrow>
      (\<exists>example0 others preds0 rest.
         get_pure_examples examples 1 cls r = Inr (example0 # others) \<and>
         model example0 = preds0 # rest \<and> preds0 \<noteq> []))"
proof (intro conjI iffI)
  assume run: "least_likely_class model examples cls r = Inr ll_class"
  then obtain example0 others preds0 rest where
    sample: "get_pure_examples examples 1 cls r = Inr (example0 # others)" and
    preds: "model example0 = preds0 # rest" and ne: "preds0 \<noteq> []" and
    k: "ll_class = int (argmin_list preds0)"
    by (rule least_likely_class_Inr)
  from get_pure_examples_one[OF sample] obtain xs img where
    "dict_get examples (str_int cls) = Inr xs" "img \<in> set xs"
    "example0 = np_array1 img" "others = []"
    by auto
  with sample preds
  show "\<exists>xs img preds0 rest.
         dict_get examples (str_int cls) = Inr xs \<and> img \<in> set xs \<and>
         get_pure_examples examples 1 cls r = Inr [np_array1 img] \<and>
         model (np_array1 img) = preds0 # rest \<and>
         0 \<le> ll_class \<and> nat ll_class < length preds0 \<and>
         preds0 ! nat ll_class = Min (set preds0) \<and>
         (\<forall>j < nat ll_class. preds0 ! nat ll_class < preds0 ! j)"
    using argmin_list_less[OF ne] argmin_list_Min[OF ne] argmin_list_first[of _ preds0]
    by (intro exI[of _ xs] exI[of _ img] exI[of _ preds0] exI[of _ rest]) (simp add: k)
next
  assume "\<exists>xs img preds0 rest.
         dict_get examples (str_int cls) = Inr xs \<and> img \<in> set xs \<and>
         get_pure_examples examples 1 cls r = Inr [np_array1 img] \<and>
         model (np_array1 img) = preds0 # rest \<and>
         0 \<le> ll_class \<and> nat ll_class < length preds0 \<and>
         preds0 ! nat ll_class = Min (set preds0) \<and>
         (\<forall>j < nat ll_class. preds0 ! nat ll_class < preds0 ! j)"
  then obtain img preds0 rest where
    sample: "get_pure_examples examples 1 cls r = Inr [np_array1 img]" and
    preds: "model (np_array1 img) = preds0 # rest" and
    k: "0 \<le> ll_class" "nat ll_class < length preds0"
      "preds0 ! nat ll_class = Min (set preds0)"
      "\<forall>j < nat ll_class. preds0 ! nat ll_class < preds0 ! j"
    by blast
  from k(2) have ne: "preds0 \<noteq> []" by auto
  from argmin_list_unique[OF k(2,3,4)] k(1) have "ll_class = int (argmin_list preds0)"
    by simp
  with least_likely_class_returns[of examples cls r "np_array1 img" "[]" model preds0 rest]
    sample preds ne
  show "least_likely_class model examples cls r = Inr ll_class" by simp
next
  assume "\<exists>k. least_likely_class model examples cls r = Inr k"
  then obtain k where "least_likely_class model examples cls r = Inr k" ..
  then show "\<exists>example0 others preds0 rest.
         get_pure_examples examples 1 cls r = Inr (example0 # others) \<and>
         model example0 = preds0 # rest \<and> preds0 \<noteq> []"
    by (rule least_likely_class_Inr) blast
next
  assume "\<exists>example0 others preds0 rest.
         get_pure_examples examples 1 cls r = Inr (example0 # others) \<and>
         model example0 = preds0 # rest \<and> preds0 \<noteq> []"
  then show "\<exists>k. least_likely_class model examples cls r = Inr k"
    using least_likely_class_returns by blast
qed

lemma least_likely_class_run: "least_likely_class stub_model two_classes 1 0 = Inr 1"
  by (simp add: least_likely_class_def sampler_eval two_classes_def py_index_def stub_eval
      np_argmin_def)

lemma sampler_run_two:
  "get_pure_examples two_classes 1 1 0 = Inr [np_array1 (pixel_image (3 / 5))]"
  "get_pure_examples two_classes 1 0 0 = Inr [np_array1 (pixel_image (1 / 5))]"
  by (simp_all add: sampler_eval two_classes_def)

theorem least_likely_class_argmin_witness:
  "least_likely_class stub_model two_classes 1 0 = Inr 1
   \<and> least_likely_class stub_model two_classes 0 0 = Inr 0
   \<and> get_pure_examples two_classes 1 1 0 = Inr [np_array1 (pixel_image (3 / 5))]
   \<and> stub_model (np_array1 (pixel_image (3 / 5))) = [[3 / 5, 2 / 5]]
   \<and> get_pure_examples two_classes 1 0 0 = Inr [np_array1 (pixel_image (1 / 5))]
   \<and> stub_model (np_array1 (pixel_image (1 / 5))) = [[1 / 5, 4 / 5]]"
proof -
  have m1: "stub_model (np_array1 (pixel_image (3 / 5))) = [[3 / 5, 2 / 5]]"
    and m0: "stub_model (np_array1 (pixel_image (1 / 5))) = [[1 / 5, 4 / 5]]"
    by (simp_all add: stub_model_def pixel_image_def np_array1_def)
  have d: "dict_get two_classes (str_int 1) = Inr [pixel_image (3 / 5), pixel_image (4 / 5)]"
    "dict_get two_classes (str_int 0) = Inr [pixel_image (1 / 5), pixel_image (2 / 5)]"
    by (simp_all add: dict_get_def str_int_def two_classes_def)
  have "least_likely_class stub_model two_classes 1 0 = Inr 1"
    by (rule least_likely_class_argmin[THEN conjunct1, THEN iffD2])
       (intro exI[of _ "[pixel_image (3 / 5), pixel_image (4 / 5)]"]
          exI[of _ "pixel_image (3 / 5)"] exI[of _ "[3 / 5, 2 / 5]"] exI[of _ "[]"],
        simp add: d sampler_run_two m1 less_Suc_eq_0_disj)
  moreover have "least_likely_class stub_model two_classes 0 0 = Inr 0"
    by (rule least_likely_class_argmin[THEN conjunct1, THEN iffD2])
       (intro exI[of _ "[pixel_image (1 / 5), pixel_image (2 / 5)]"]
          exI[of _ "pixel_image (1 / 5)"] exI[of _ "[1 / 5, 4 / 5]"] exI[of _ "[]"],
        simp add: d sampler_run_two m0)
  ultimately show ?thesis by (simp add: sampler_run_two m0 m1)
qed

section \<open>The clipping invariant\<close>

lemma pixels_in_np_clip: "lo \<le> hi \<Longrightarrow> pixels_in lo hi (np_clip x lo hi)"
  unfolding np_clip_def
  by (induction x) (auto simp: list_all_iff)

lemma basic_iterative_loop_pixels:
  "pixels_in 0 1 (snd s) \<Longrightarrow> pixels_in 0 1 (snd (basic_iterative_loop K model cls n s))"
proof (induction n arbitrary: s)
  case 0
  then show ?case by simp
next
  case (Suc n)
  obtain alpha adv where s: "s = (alpha, adv)" by (cases s)
  show ?case
    unfolding s by (simp add: Let_def Suc.IH pixels_in_np_clip)
qed

lemma illc_loop_pixels:
  "pixels_in 0 1 (snd s) \<Longrightarrow> pixels_in 0 1 (snd (illc_loop K model cls n s))"
proof (induction n arbitrary: s)
  case 0
  then show ?case by simp
next
  case (Suc n)
  obtain alpha adv where s: "s = (alpha, adv)" by (cases s)
  show ?case
    unfolding s by (simp add: Let_def Suc.IH pixels_in_np_clip)
qed

lemma get_pure_examples_pixels:
  assumes "examples_in 0 1 examples" "get_pure_examples examples n cls r = Inr res"
  shows "list_all (pixels_in 0 1) res"
proof -
  from assms(2) obtain low xs where
    xs: "dict_get examples (str_int cls) = Inr xs" and
    res: "res = map np_array1 (py_slice xs low (low + n))"
    by (auto simp: get_pure_examples_def split: sum.splits)
  from xs have "(str_int cls, xs) \<in> set examples" by (rule dict_get_in)
  with assms(1) have "list_all (pixels_in 0 1) xs"
    by (auto simp: examples_in_def list_all_iff)
  with set_py_slice[of xs low "low + n"] show ?thesis
    unfolding res by (auto simp: list_all_iff np_array1_def)
qed


text \<open>
  C1. When the pixels of the input example lie in \<open>[0, 1]\<close>, and those of every image of
  the example set do, every array that one of the three attacks returns has its pixels
  in \<open>[0, 1]\<close>, for every \<open>epsilon\<close>, \<open>alpha\<close> and number of iterations.
\<close>

theorem attacks_clipped:
  assumes "pixels_in 0 1 example" and "examples_in 0 1 examples"
  shows "pixels_in 0 1 (fast_gradient_sign K model example cls epsilon)
    \<and> pixels_in 0 1 (basic_iterative K model example cls alpha epsilon num_iterations)
    \<and> (case iterative_least_likely_class K' model examples target_class alpha epsilon
               num_iterations r1 r2 of
          Inl e \<Rightarrow> True
        | Inr adv_example \<Rightarrow> pixels_in 0 1 adv_example)"
proof (intro conjI)
  show "pixels_in 0 1 (fast_gradient_sign K model example cls epsilon)"
    by (simp add: fast_gradient_sign_def Let_def pixels_in_np_clip)
  show "pixels_in 0 1 (basic_iterative K model example cls alpha epsilon num_iterations)"
    using assms(1) by (simp add: basic_iterative_def basic_iterative_loop_pixels)
  show "case iterative_least_likely_class K' model examples target_class alpha epsilon
               num_iterations r1 r2 of
          Inl e \<Rightarrow> True
        | Inr adv_example \<Rightarrow> pixels_in 0 1 adv_example"
  proof (cases "iterative_least_likely_class K' model examples target_class alpha epsilon
                  num_iterations r1 r2")
    case (Inl e)
    then show ?thesis by simp
  next
    case (Inr adv)
    then obtain ll_class sample start where
      sample: "get_pure_examples examples 1 ll_class r2 = Inr sample" and
      start: "py_index sample 0 = Inr start" and
      adv: "adv = snd (illc_loop K' model ll_class (nat num_iterations) (alpha, start))"
      by (auto simp: iterative_least_likely_class_def split: sum.splits)
    from get_pure_examples_pixels[OF assms(2) sample] py_index_in[OF start]
    have "pixels_in 0 1 start" by (auto simp: list_all_iff)
    then have "pixels_in 0 1 adv" unfolding adv by (simp add: illc_loop_pixels)
    with Inr show ?thesis by simp
  qed
qed

lemma illc_run:
  "iterative_least_likely_class stub_loss stub_model two_classes 1 (3 / 10) (1 / 2) 2 0 0
     = Inr (Arr [pixel_image 1])"
  by (simp add: iterative_least_likely_class_def least_likely_class_run)
     (simp add: sampler_eval two_classes_def py_index_def numeral_2_eq_2
        compute_gradient_sign_def stub_eval)

theorem attacks_clipped_witness:
  "pixels_in 0 1 (Arr [pixel_image (4 / 5)]) \<and> examples_in 0 1 two_classes
   \<and> fast_gradient_sign stub_loss stub_model (Arr [pixel_image (4 / 5)]) 1 (1 / 2)
       = Arr [pixel_image 1]
   \<and> pixels_in 0 1 (fast_gradient_sign stub_loss stub_model (Arr [pixel_image (4 / 5)]) 1 (1 / 2))
   \<and> pixels_in 0 1
        (basic_iterative stub_loss stub_model (Arr [pixel_image (4 / 5)]) 1 (1 / 10) (1 / 2) 20)
   \<and> iterative_least_likely_class stub_loss stub_model two_classes 1 (3 / 10) (1 / 2) 2 0 0
       = Inr (Arr [pixel_image 1])
   \<and> pixels_in 0 1 (Arr [pixel_image 1])"
proof -
  have h1: "pixels_in 0 1 (Arr [pixel_image (4 / 5)])"
    by (simp add: pixel_image_def)
  have h2: "examples_in 0 1 two_classes"
    by (simp add: examples_in_def two_classes_def pixel_image_def)
  have fgs: "fast_gradient_sign stub_loss stub_model (Arr [pixel_image (4 / 5)]) 1 (1 / 2)
       = Arr [pixel_image 1]"
    by (simp add: fast_gradient_sign_def compute_gradient_sign_stub)
       (simp add: stub_eval)
  from attacks_clipped[OF h1 h2, where K = stub_loss and model = stub_model and cls = 1
      and epsilon = "1 / 2" and alpha = "1 / 10" and num_iterations = 20]
    attacks_clipped[OF h1 h2, where K' = stub_loss and model = stub_model
      and target_class = 1 and epsilon = "1 / 2" and alpha = "3 / 10" and num_iterations = 2
      and ?r1.0 = 0 and ?r2.0 = 0]
  show ?thesis
    using h1 h2 fgs by (simp add: illc_run)
qed

section \<open>The two iterative attacks\<close>

lemma illc_loop_eq: "illc_loop K model c n s = basic_iterative_loop K model c n s"
proof (induction n arbitrary: s)
  case 0
  show ?case by simp
next
  case (Suc n)
  obtain alpha adv where s: "s = (alpha, adv)" by (cases s)
  show ?case unfolding s by (simp add: Let_def Suc.IH)
qed

text \<open>
  Two rounds of the loop: \<open>alpha\<close> is assigned to in every round, so what the second round
  adds is the first \<open>alpha\<close> times both estimates.
\<close>

lemma basic_iterative_loop_two_rounds:
  "basic_iterative_loop K model cls 2 (alpha, x) =
     (let s1 = real_of_int (compute_gradient_sign K model x cls default_delta);
          x1 = np_clip (np_add x (alpha * s1)) 0 1;
          s2 = real_of_int (compute_gradient_sign K model x1 cls default_delta)
      in (alpha * s1 * s2, np_clip (np_add x1 (alpha * s1 * s2)) 0 1))"
  by (simp add: numeral_2_eq_2 Let_def)

text \<open>
  C2. A run of \<open>basic_iterative\<close> in which the estimate is \<open>-1\<close> in both of two
  iterations: the first adds \<open>-1/10\<close> to the example and leaves \<open>alpha\<close> at \<open>-1/10\<close>; the
  second multiplies that \<open>alpha\<close> by its estimate \<open>-1\<close> and so adds \<open>+1/10\<close>, which is the
  caller's \<open>alpha\<close> times the two estimates. After the two iterations the example is back
  at its start.
\<close>

theorem basic_iterative_alpha_accumulates:
  "compute_gradient_sign stub_loss stub_model (Arr [pixel_image (1 / 2)]) 0 default_delta = - 1
   \<and> basic_iterative_loop stub_loss stub_model 0 1 (1 / 10, Arr [pixel_image (1 / 2)])
       = (- 1 / 10, Arr [pixel_image (2 / 5)])
   \<and> compute_gradient_sign stub_loss stub_model (Arr [pixel_image (2 / 5)]) 0 default_delta = - 1
   \<and> basic_iterative_loop stub_loss stub_model 0 1 (- 1 / 10, Arr [pixel_image (2 / 5)])
       = (1 / 10, Arr [pixel_image (1 / 2)])
   \<and> basic_iterative stub_loss stub_model (Arr [pixel_image (1 / 2)]) 0 (1 / 10) (1 / 2) 2
       = Arr [pixel_image (1 / 2)]"
  by (simp add: basic_iterative_def numeral_2_eq_2 Let_def compute_gradient_sign_def stub_eval)

text \<open>
  C7. After the least likely class has been chosen and an example of it sampled, the
  result of \<open>iterative_least_likely_class\<close> is that of \<open>basic_iterative\<close> on that example
  with the least likely class as the label, for the same \<open>alpha\<close>, \<open>epsilon\<close> and number of
  iterations.
\<close>

theorem illc_is_basic_iterative:
  "iterative_least_likely_class K model examples target_class alpha epsilon num_iterations r1 r2 =
     (case least_likely_class model examples target_class r1 of
        Inl e \<Rightarrow> Inl e
      | Inr ll_class \<Rightarrow>
          (case get_pure_examples examples 1 ll_class r2 of
             Inl e \<Rightarrow> Inl e
           | Inr ll_class_example \<Rightarrow>
               (case py_index ll_class_example 0 of
                  Inl e \<Rightarrow> Inl e
                | Inr start \<Rightarrow>
                    Inr (basic_iterative K model start ll_class alpha epsilon num_iterations))))"
  by (simp add: iterative_least_likely_class_def basic_iterative_def illc_loop_eq
      split: sum.splits)

text \<open>
  C8. The results of \<open>basic_iterative\<close> and of \<open>iterative_least_likely_class\<close> do not
  depend on \<open>epsilon\<close>: two runs that differ in \<open>epsilon\<close> only, with the same random
  draws, return the same.
\<close>

theorem iterative_attacks_ignore_epsilon:
  "basic_iterative K model example cls alpha epsilon num_iterations =
     basic_iterative K model example cls alpha epsilon' num_iterations
   \<and> iterative_least_likely_class K' model examples target_class alpha epsilon num_iterations r1 r2 =
     iterative_least_likely_class K' model examples target_class alpha epsilon' num_iterations r1 r2"
  by (simp add: basic_iterative_def iterative_least_likely_class_def)

section \<open>The example set is not written to\<close>

lemma unchanged_refl: "unchanged s s"
  by (simp add: unchanged_def)

lemma unchanged_trans: "unchanged s t \<Longrightarrow> unchanged t u \<Longrightarrow> unchanged s u"
  by (auto simp: unchanged_def intro: prefix_order.trans)

lemma unchanged_new_array: "unchanged s (snd (new_array v s))"
  by (simp add: unchanged_def new_array_def)

lemma unchanged_new_pylist: "unchanged s (snd (new_pylist xs s))"
  by (simp add: unchanged_def new_pylist_def)

lemma prefix_list_update:
  assumes "prefix xs ys" "length xs \<le> p"
  shows "prefix xs (ys[p := v])"
proof -
  from assms(1) obtain zs where "ys = xs @ zs" by (auto simp: prefix_def)
  with assms(2) show ?thesis by (simp add: list_update_append)
qed

text \<open>An item assignment to a list object that is not among those of \<open>s0\<close>.\<close>

lemma unchanged_set_item:
  "unchanged s0 s \<Longrightarrow> length (pylists s0) \<le> l \<Longrightarrow> unchanged s0 (set_item l i a s)"
  by (simp add: unchanged_def set_item_def prefix_list_update)

lemma wrap_loop_unchanged:
  "unchanged s0 s \<Longrightarrow> length (pylists s0) \<le> p \<Longrightarrow> unchanged s0 (wrap_loop p i n s)"
proof (induction n arbitrary: i s)
  case 0
  then show ?case by simp
next
  case (Suc n)
  let ?v = "np_array1 (arrays s ! (pylists s ! p ! i))"
  have "unchanged s0 (snd (new_array ?v s))"
    using Suc.prems(1) unchanged_new_array by (rule unchanged_trans)
  then have "unchanged s0 (set_item p i (fst (new_array ?v s)) (snd (new_array ?v s)))"
    using Suc.prems(2) by (rule unchanged_set_item)
  from Suc.IH[OF this Suc.prems(2)] show ?case
    by (simp add: case_prod_beta Let_def)
qed

lemma get_pure_examples_st_unchanged:
  "unchanged s (snd (get_pure_examples_st examples n cls r s))"
proof -
  have "unchanged s (wrap_loop (length (pylists s)) 0 k (snd (new_pylist xs s)))" for xs k
    by (rule wrap_loop_unchanged[OF unchanged_new_pylist]) simp
  then show ?thesis
    by (auto simp: get_pure_examples_st_def unchanged_refl Let_def new_pylist_def
        split: sum.splits)
qed

lemma compute_gradient_sign_st_unchanged:
  "unchanged s (snd (compute_gradient_sign_st K model x y delta s))"
  using unchanged_new_array[of s]
  by (simp add: compute_gradient_sign_st_def case_prod_beta Let_def)

text \<open>One round of either loop: the estimate, then the two new arrays.\<close>

lemma round_unchanged:
  assumes "unchanged s0 s"
  shows "unchanged s0
    (snd (new_array v2 (snd (new_array v1 (snd (compute_gradient_sign_st K model x y delta s))))))"
  by (meson assms compute_gradient_sign_st_unchanged unchanged_new_array unchanged_trans)

lemma fast_gradient_sign_st_unchanged:
  "unchanged s (snd (fast_gradient_sign_st K model example cls epsilon s))"
  by (simp add: fast_gradient_sign_st_def case_prod_beta Let_def round_unchanged unchanged_refl)

lemma basic_iterative_loop_st_unchanged:
  "unchanged s0 (snd (snd st)) \<Longrightarrow>
   unchanged s0 (snd (snd (basic_iterative_loop_st K model cls n st)))"
proof (induction n arbitrary: st)
  case 0
  then show ?case by simp
next
  case (Suc n)
  obtain alpha adv s where st: "st = (alpha, adv, s)" by (cases st)
  with Suc.prems have "unchanged s0 s" by simp
  then show ?case unfolding st
    by (simp add: case_prod_beta Let_def Suc.IH round_unchanged)
qed

lemma illc_loop_st_unchanged:
  "unchanged s0 (snd (snd st)) \<Longrightarrow>
   unchanged s0 (snd (snd (illc_loop_st K model cls n st)))"
proof (induction n arbitrary: st)
  case 0
  then show ?case by simp
next
  case (Suc n)
  obtain alpha adv s where st: "st = (alpha, adv, s)" by (cases st)
  with Suc.prems have "unchanged s0 s" by simp
  then show ?case unfolding st
    by (simp add: case_prod_beta Let_def Suc.IH round_unchanged)
qed

lemma least_likely_class_st_unchanged:
  "unchanged s (snd (least_likely_class_st model examples cls r s))"
  using get_pure_examples_st_unchanged[of s examples 1 cls r]
  by (auto simp: least_likely_class_st_def split: prod.splits sum.splits)

lemma iterative_least_likely_class_st_unchanged:
  "unchanged s (snd (iterative_least_likely_class_st K model examples t alpha epsilon n r1 r2 s))"
proof -
  obtain res1 s1 where l: "least_likely_class_st model examples t r1 s = (res1, s1)"
    by (cases "least_likely_class_st model examples t r1 s")
  with least_likely_class_st_unchanged[of s model examples t r1] have s1: "unchanged s s1"
    by simp
  show ?thesis
  proof (cases res1)
    case (Inl e)
    with l s1 show ?thesis by (simp add: iterative_least_likely_class_st_def)
  next
    case (Inr ll_class)
    obtain res2 s2 where g: "get_pure_examples_st examples 1 ll_class r2 s1 = (res2, s2)"
      by (cases "get_pure_examples_st examples 1 ll_class r2 s1")
    with get_pure_examples_st_unchanged[of s1 examples 1 ll_class r2] s1
    have s2: "unchanged s s2" by (auto intro: unchanged_trans)
    show ?thesis
    proof (cases res2)
      case (Inl e)
      with l g Inr s2 show ?thesis by (simp add: iterative_least_likely_class_st_def)
    next
      case p: (Inr p)
      have "unchanged s (snd (snd (illc_loop_st K model ll_class k (alpha, a, s2))))" for k a
        by (rule illc_loop_st_unchanged) (simp add: s2)
      then have "unchanged s b" if "illc_loop_st K model ll_class k (alpha, a, s2) = (x, y, b)"
        for k a x y b using that by (metis snd_conv)
      with l g Inr p s2 show ?thesis
        by (auto simp: iterative_least_likely_class_st_def split: sum.splits prod.splits)
    qed
  qed
qed

text \<open>
  C10. The sampler, with its item assignments, and the three attacks leave every list
  object and every array of the store they start from as it was: the lists of the
  classes and the images they hold among them.
\<close>

theorem example_set_unchanged:
  "unchanged s (snd (get_pure_examples_st examples num_examples cls r s))
   \<and> unchanged s (snd (fast_gradient_sign_st K model example y epsilon s))
   \<and> unchanged s (snd (basic_iterative_st K model example y alpha epsilon num_iterations s))
   \<and> unchanged s (snd (iterative_least_likely_class_st K' model examples target_class alpha epsilon
                         num_iterations r1 r2 s))"
proof -
  have "unchanged s (snd (snd (basic_iterative_loop_st K model y k (alpha, example, s))))" for k
    by (rule basic_iterative_loop_st_unchanged) (simp add: unchanged_refl)
  then have "unchanged s (snd (basic_iterative_st K model example y alpha epsilon num_iterations s))"
    by (simp add: basic_iterative_st_def)
  then show ?thesis
    by (simp add: get_pure_examples_st_unchanged fast_gradient_sign_st_unchanged
        iterative_least_likely_class_st_unchanged)
qed

section \<open>The store and the values\<close>

text \<open>
  What the functions over the store return is what the functions over values return on
  the example set that the store holds.
\<close>

lemma wrap_loop_result:
  assumes "p < length (pylists s)" "pylists s ! p = done @ todo" "length done = i"
    "length todo = n" "\<forall>a\<in>set todo. a < length (arrays s)"
  shows "arrays (wrap_loop p i n s) = arrays s @ map (\<lambda>a. np_array1 (arrays s ! a)) todo
    \<and> pylists (wrap_loop p i n s)
        = (pylists s)[p := done @ [length (arrays s) ..< length (arrays s) + n]]"
  using assms
proof (induction n arbitrary: s i "done" todo)
  case 0
  then have "(pylists s)[p := done] = pylists s"
    by (metis append_Nil2 length_0_conv list_update_id)
  with 0 show ?case by simp
next
  case (Suc n)
  from Suc.prems(4) obtain a rest where todo: "todo = a # rest" "length rest = n"
    by (cases todo) auto
  let ?A = "length (arrays s)"
  let ?v = "np_array1 (arrays s ! a)"
  let ?s2 = "set_item p i ?A (snd (new_array ?v s))"
  from Suc.prems(2,3) todo have item: "pylists s ! p ! i = a"
    by (simp add: nth_append)
  have arr2: "arrays ?s2 = arrays s @ [?v]"
    by (simp add: set_item_def new_array_def)
  have lst2: "pylists ?s2 = (pylists s)[p := (done @ [?A]) @ rest]"
    using Suc.prems(2) todo
    by (simp add: set_item_def new_array_def Suc.prems(3)[symmetric])
  have step: "wrap_loop p i (Suc n) s = wrap_loop p (Suc i) n ?s2"
    by (simp add: item new_array_def Let_def)
  have "arrays (wrap_loop p (Suc i) n ?s2)
          = arrays ?s2 @ map (\<lambda>a. np_array1 (arrays ?s2 ! a)) rest
      \<and> pylists (wrap_loop p (Suc i) n ?s2)
          = (pylists ?s2)[p := (done @ [?A]) @ [length (arrays ?s2) ..< length (arrays ?s2) + n]]"
  proof (rule Suc.IH)
    show "p < length (pylists ?s2)" using Suc.prems(1) by (simp add: lst2)
    show "pylists ?s2 ! p = (done @ [?A]) @ rest" using Suc.prems(1) by (simp add: lst2)
    show "length (done @ [?A]) = Suc i" using Suc.prems(3) by simp
    show "length rest = n" by (rule todo)
    show "\<forall>a\<in>set rest. a < length (arrays ?s2)"
      using Suc.prems(5) todo by (auto simp: arr2)
  qed
  moreover have "map (\<lambda>a. np_array1 (arrays ?s2 ! a)) rest
                   = map (\<lambda>a. np_array1 (arrays s ! a)) rest"
    using Suc.prems(5) todo by (auto simp: arr2 nth_append)
  moreover have "[?A ..< ?A + Suc n] = ?A # [Suc ?A ..< Suc ?A + n]"
    by (simp add: upt_conv_Cons)
  ultimately show ?case
    unfolding step todo by (simp add: arr2 lst2)
qed

lemma map_py_slice: "map f (py_slice xs lo hi) = py_slice (map f xs) lo hi"
  by (simp add: py_slice_def Let_def take_map drop_map)

lemma dict_len_examples_of: "dict_len (examples_of d s) = dict_len d"
proof -
  have "map fst (examples_of d s) = map fst d"
    by (simp add: examples_of_def case_prod_beta)
  then show ?thesis by (simp add: dict_len_def)
qed

lemma dict_get_examples_of:
  "dict_get (examples_of d s) k =
     (case dict_get d k of
        Inl e \<Rightarrow> Inl e
      | Inr l \<Rightarrow> Inr (map (\<lambda>a. arrays s ! a) (pylists s ! l)))"
proof -
  have "map_of (examples_of d s) k
          = map_option (\<lambda>l. map (\<lambda>a. arrays s ! a) (pylists s ! l)) (map_of d k)"
    unfolding examples_of_def by (induction d) auto
  then show ?thesis by (simp add: dict_get_def split: option.splits)
qed

lemma nth_appended: "map (\<lambda>a. (xs @ ys) ! a) [length xs ..< length xs + length ys] = ys"
  by (rule nth_equalityI) (simp_all add: nth_append)

lemma get_pure_examples_st_refines:
  assumes wf: "wf_store d s" and run: "get_pure_examples_st d n c r s = (res, s')"
  shows "case res of
           Inl e \<Rightarrow> get_pure_examples (examples_of d s) n c r = Inl e \<and> s' = s
         | Inr p \<Rightarrow> get_pure_examples (examples_of d s) n c r
                      = Inr (map (\<lambda>a. arrays s' ! a) (pylists s' ! p))
                    \<and> (\<forall>a\<in>set (pylists s' ! p). a < length (arrays s'))"
proof (cases "draw_low_limit d n r")
  case (Inl e)
  with run show ?thesis
    by (auto simp: get_pure_examples_st_def get_pure_examples_def draw_low_limit_def
        dict_len_examples_of)
next
  case low: (Inr low)
  then have low': "draw_low_limit (examples_of d s) n r = Inr low"
    by (simp add: draw_low_limit_def dict_len_examples_of)
  show ?thesis
  proof (cases "dict_get d (str_int c)")
    case (Inl e)
    with run low have "res = Inl e" "s' = s"
      by (simp_all add: get_pure_examples_st_def)
    with low' Inl show ?thesis
      by (simp add: get_pure_examples_def dict_get_examples_of)
  next
    case (Inr l)
    let ?items = "py_slice (pylists s ! l) low (low + n)"
    let ?s1 = "snd (new_pylist ?items s)"
    let ?p = "length (pylists s)"
    from Inr have "(str_int c, l) \<in> set d" by (rule dict_get_in)
    with wf have "\<forall>a\<in>set (pylists s ! l). a < length (arrays s)"
      by (auto simp: wf_store_def list_all_iff)
    with set_py_slice[of "pylists s ! l" low "low + n"]
    have items: "\<forall>a\<in>set ?items. a < length (arrays ?s1)"
      by (auto simp: new_pylist_def)
    have "arrays (wrap_loop ?p 0 (length ?items) ?s1)
            = arrays ?s1 @ map (\<lambda>a. np_array1 (arrays ?s1 ! a)) ?items
        \<and> pylists (wrap_loop ?p 0 (length ?items) ?s1)
            = (pylists ?s1)[?p := [] @ [length (arrays ?s1) ..< length (arrays ?s1) + length ?items]]"
      by (rule wrap_loop_result) (use items in \<open>simp_all add: new_pylist_def\<close>)
    then have arr: "arrays (wrap_loop ?p 0 (length ?items) ?s1)
                      = arrays s @ map (\<lambda>a. np_array1 (arrays s ! a)) ?items"
      and lst: "pylists (wrap_loop ?p 0 (length ?items) ?s1)
                  = pylists s @ [[length (arrays s) ..< length (arrays s) + length ?items]]"
      by (simp_all add: new_pylist_def)
    from run low Inr have res: "res = Inr ?p"
      and s': "s' = wrap_loop ?p 0 (length ?items) ?s1"
      by (simp_all add: get_pure_examples_st_def new_pylist_def Let_def)
    have "map (\<lambda>a. arrays s' ! a) (pylists s' ! ?p)
            = map (\<lambda>a. np_array1 (arrays s ! a)) ?items"
      unfolding s' arr lst
      using nth_appended[of "arrays s" "map (\<lambda>a. np_array1 (arrays s ! a)) ?items"]
      by simp
    also have "\<dots> = map np_array1 (py_slice (map (\<lambda>a. arrays s ! a) (pylists s ! l)) low (low + n))"
      by (simp add: map_py_slice[symmetric])
    finally have "get_pure_examples (examples_of d s) n c r
                    = Inr (map (\<lambda>a. arrays s' ! a) (pylists s' ! ?p))"
      using low' Inr by (simp add: get_pure_examples_def dict_get_examples_of)
    moreover have "\<forall>a\<in>set (pylists s' ! ?p). a < length (arrays s')"
      unfolding s' arr lst by simp
    ultimately show ?thesis
      using res by simp
  qed
qed


lemma unchanged_nth:
  assumes "unchanged s s'"
  shows "l < length (pylists s) \<Longrightarrow> pylists s' ! l = pylists s ! l"
    and "a < length (arrays s) \<Longrightarrow> arrays s' ! a = arrays s ! a"
    and "length (pylists s) \<le> length (pylists s')"
    and "length (arrays s) \<le> length (arrays s')"
  using assms by (auto simp: unchanged_def prefix_def nth_append)

lemma wf_store_unchanged:
  assumes "wf_store d s" "unchanged s s'"
  shows "wf_store d s'" and "examples_of d s' = examples_of d s"
proof -
  have *: "l < length (pylists s') \<and> pylists s' ! l = pylists s ! l
      \<and> (\<forall>a\<in>set (pylists s ! l). a < length (arrays s') \<and> arrays s' ! a = arrays s ! a)"
    if "(k, l) \<in> set d" for k l
  proof -
    from that assms(1) have l: "l < length (pylists s)"
      and a: "\<forall>a\<in>set (pylists s ! l). a < length (arrays s)"
      by (auto simp: wf_store_def list_all_iff)
    with unchanged_nth[OF assms(2)] show ?thesis
      by (metis less_le_trans)
  qed
  then show "wf_store d s'"
    by (auto simp: wf_store_def list_all_iff)
  from * show "examples_of d s' = examples_of d s"
    by (auto simp: examples_of_def)
qed

lemma compute_gradient_sign_st_refines:
  assumes "x < length (arrays s)"
  shows "compute_gradient_sign_st K model x y delta s =
           (compute_gradient_sign K model (arrays s ! x) y delta,
            s\<lparr>arrays := arrays s @ [np_add (arrays s ! x) delta]\<rparr>)"
  using assms
  by (simp add: compute_gradient_sign_st_def compute_gradient_sign_def new_array_def Let_def
      nth_append)

lemma fast_gradient_sign_st_refines:
  assumes "example < length (arrays s)"
  shows "case fast_gradient_sign_st K model example cls epsilon s of
           (adv_example, s') \<Rightarrow>
             adv_example < length (arrays s') \<and>
             arrays s' ! adv_example
               = fast_gradient_sign K model (arrays s ! example) cls epsilon"
  using assms
  by (simp add: fast_gradient_sign_st_def fast_gradient_sign_def
      compute_gradient_sign_st_refines new_array_def Let_def nth_append)

lemma basic_iterative_loop_st_refines:
  assumes "adv < length (arrays s)"
  shows "case basic_iterative_loop_st K model cls n (alpha, adv, s) of
           (alpha', adv', s') \<Rightarrow>
             adv' < length (arrays s') \<and>
             (alpha', arrays s' ! adv')
               = basic_iterative_loop K model cls n (alpha, arrays s ! adv)"
  using assms
proof (induction n arbitrary: alpha adv s)
  case 0
  then show ?case by simp
next
  case (Suc n)
  let ?g = "compute_gradient_sign K model (arrays s ! adv) cls default_delta"
  let ?alpha = "alpha * real_of_int ?g"
  let ?added = "np_add (arrays s ! adv) ?alpha"
  let ?clipped = "np_clip ?added 0 1"
  let ?s3 = "s\<lparr>arrays := arrays s @ [np_add (arrays s ! adv) default_delta, ?added, ?clipped]\<rparr>"
  let ?a3 = "Suc (Suc (length (arrays s)))"
  have st: "basic_iterative_loop_st K model cls (Suc n) (alpha, adv, s)
              = basic_iterative_loop_st K model cls n (?alpha, ?a3, ?s3)"
    using Suc.prems
    by (simp add: compute_gradient_sign_st_refines new_array_def Let_def nth_append)
  have pure: "basic_iterative_loop K model cls (Suc n) (alpha, arrays s ! adv)
                = basic_iterative_loop K model cls n (?alpha, ?clipped)"
    by (simp add: Let_def)
  have "?a3 < length (arrays ?s3)" by simp
  from Suc.IH[OF this, of ?alpha] show ?case
    unfolding st pure by (simp add: nth_append)
qed

lemma illc_loop_st_eq: "illc_loop_st K model c n st = basic_iterative_loop_st K model c n st"
proof (induction n arbitrary: st)
  case 0
  show ?case by simp
next
  case (Suc n)
  obtain alpha adv s where st: "st = (alpha, adv, s)" by (cases st)
  show ?case unfolding st by (simp add: Let_def Suc.IH case_prod_beta)
qed

lemma basic_iterative_st_refines:
  assumes "example < length (arrays s)"
  shows "case basic_iterative_st K model example cls alpha epsilon num_iterations s of
           (adv_example, s') \<Rightarrow>
             arrays s' ! adv_example
               = basic_iterative K model (arrays s ! example) cls alpha epsilon num_iterations"
  using basic_iterative_loop_st_refines[OF assms, of K model cls "nat num_iterations" alpha]
  by (auto simp: basic_iterative_st_def basic_iterative_def split: prod.splits
      dest: arg_cong[where f = snd])

lemma least_likely_class_st_refines:
  assumes "wf_store d s"
  shows "fst (least_likely_class_st model d c r s) = least_likely_class model (examples_of d s) c r"
proof -
  obtain res s' where run: "get_pure_examples_st d 1 c r s = (res, s')"
    by (cases "get_pure_examples_st d 1 c r s")
  from get_pure_examples_st_refines[OF assms run] run show ?thesis
    by (cases res)
       (auto simp: least_likely_class_st_def least_likely_class_def py_index_def
          split: sum.splits if_splits)
qed


lemma py_index_map:
  "py_index (map f xs) i = (case py_index xs i of Inl e \<Rightarrow> Inl e | Inr x \<Rightarrow> Inr (f x))"
proof -
  have "map f xs ! nat j = f (xs ! nat j)" if "0 \<le> j" "j < int (length xs)" for j
    using that by (intro nth_map) linarith
  then show ?thesis by (auto simp: py_index_def)
qed

lemma iterative_least_likely_class_st_refines:
  assumes wf: "wf_store d s"
  shows "case iterative_least_likely_class_st K model d t alpha epsilon n r1 r2 s of
           (Inl e, s') \<Rightarrow>
             iterative_least_likely_class K model (examples_of d s) t alpha epsilon n r1 r2 = Inl e
         | (Inr a, s') \<Rightarrow>
             iterative_least_likely_class K model (examples_of d s) t alpha epsilon n r1 r2
               = Inr (arrays s' ! a)"
proof -
  obtain res1 s1 where l: "least_likely_class_st model d t r1 s = (res1, s1)"
    by (cases "least_likely_class_st model d t r1 s")
  from least_likely_class_st_refines[OF wf, of model t r1] l
  have res1: "least_likely_class model (examples_of d s) t r1 = res1" by simp
  from least_likely_class_st_unchanged[of s model d t r1] l have "unchanged s s1" by simp
  from wf_store_unchanged[OF wf this]
  have wf1: "wf_store d s1" and ex1: "examples_of d s1 = examples_of d s" .
  show ?thesis
  proof (cases res1)
    case (Inl e)
    with l res1 show ?thesis
      by (simp add: iterative_least_likely_class_st_def iterative_least_likely_class_def)
  next
    case ll: (Inr ll_class)
    obtain res2 s2 where g: "get_pure_examples_st d 1 ll_class r2 s1 = (res2, s2)"
      by (cases "get_pure_examples_st d 1 ll_class r2 s1")
    note sample = get_pure_examples_st_refines[OF wf1 g, unfolded ex1]
    show ?thesis
    proof (cases res2)
      case (Inl e)
      with sample l ll res1 g show ?thesis
        by (simp add: iterative_least_likely_class_st_def iterative_least_likely_class_def)
    next
      case p: (Inr p)
      with sample have
        pure: "get_pure_examples (examples_of d s) 1 ll_class r2
                 = Inr (map (\<lambda>a. arrays s2 ! a) (pylists s2 ! p))"
        and valid: "\<forall>a\<in>set (pylists s2 ! p). a < length (arrays s2)"
        by simp_all
      show ?thesis
      proof (cases "py_index (pylists s2 ! p) 0")
        case (Inl e)
        with l ll res1 g p pure show ?thesis
          by (simp add: iterative_least_likely_class_st_def iterative_least_likely_class_def
              py_index_map)
      next
        case a: (Inr a)
        with valid have "a < length (arrays s2)"
          by (auto dest: py_index_in)
        from basic_iterative_loop_st_refines[OF this, of K model ll_class "nat n" alpha]
        have "case illc_loop_st K model ll_class (nat n) (alpha, a, s2) of
                (alpha', adv', s') \<Rightarrow>
                  arrays s' ! adv' = snd (illc_loop K model ll_class (nat n) (alpha, arrays s2 ! a))"
          by (auto simp: illc_loop_st_eq illc_loop_eq split: prod.splits
              dest: arg_cong[where f = snd])
        with l ll res1 g p pure a show ?thesis
          by (auto simp: iterative_least_likely_class_st_def iterative_least_likely_class_def
              py_index_map split: prod.splits)
      qed
    qed
  qed
qed

text \<open>A run of the sampler on the small store.\<close>

lemma get_pure_examples_st_run:
  "get_pure_examples_st small_dict 2 0 0 small_store =
     (Inr 3,
      \<lparr>arrays = [pixel_image 0, pixel_image (1 / 2), pixel_image 1,
                 Arr [pixel_image 0], Arr [pixel_image (1 / 2)]],
       pylists = [[0, 1, 2], [], [], [3, 4]]\<rparr>)"
  by (simp add: get_pure_examples_st_def draw_low_limit_def randint_def dict_len_def
      dict_get_def str_int_def py_slice_def slice_bound_def np_array1_def small_dict_def
      small_store_def new_pylist_def new_array_def set_item_def numeral_2_eq_2 Let_def)

end
